theory Spec2Isabelle
  imports Main "HOL-Library.Word"
begin

section \<open>Strings and character classes\<close>

text \<open>
  The component \<^verbatim>\<open>TelTextField\<close> (\<^verbatim>\<open>web/src/app/util/TelTextField.tsx\<close>) works on
  JavaScript strings, which are sequences of 16-bit code units. A string is therefore a
  list of 16-bit words; the regular expressions of the source carry no \<^verbatim>\<open>u\<close> or
  \<^verbatim>\<open>i\<close> flag, so every character class below is a set of code units.
\<close>

type_synonym jschar = "16 word"
type_synonym jsstring = "jschar list"

text \<open>An ASCII literal of the source, written as an Isabelle string.\<close>

definition js :: "string \<Rightarrow> jsstring" where
  "js s = map (\<lambda>c. of_nat (of_char c)) s"

text \<open>\<^verbatim>\<open>\d\<close> and \<^verbatim>\<open>[0-9]\<close>: the code units U+0030 to U+0039.\<close>

definition is_digit :: "jschar \<Rightarrow> bool" where
  "is_digit c = (0x30 \<le> c \<and> c \<le> 0x39)"

text \<open>\<^verbatim>\<open>[a-zA-Z0-9]\<close>.\<close>

definition is_alnum :: "jschar \<Rightarrow> bool" where
  "is_alnum c = ((0x61 \<le> c \<and> c \<le> 0x7A) \<or> (0x41 \<le> c \<and> c \<le> 0x5A) \<or> is_digit c)"

text \<open>
  The code units \<^verbatim>\<open>String.prototype.trimLeft\<close> removes: ECMAScript's WhiteSpace
  (TAB, VT, FF, SP, NBSP, ZWNBSP and the space separators U+1680, U+2000 to U+200A,
  U+202F, U+205F, U+3000) and LineTerminator (LF, CR, LS, PS).
\<close>

definition is_space :: "jschar \<Rightarrow> bool" where
  "is_space c = (c \<in> {0x09, 0x0A, 0x0B, 0x0C, 0x0D, 0x20, 0xA0, 0x1680,
                       0x2028, 0x2029, 0x202F, 0x205F, 0x3000, 0xFEFF}
                 \<or> (0x2000 \<le> c \<and> c \<le> 0x200A))"

definition trimLeft :: "jsstring \<Rightarrow> jsstring" where
  "trimLeft s = dropWhile is_space s"

section \<open>Props and mode\<close>

text \<open>\<^verbatim>\<open>type InputType = 'tel' | 'sid'\<close>\<close>

datatype InputType = Tel | Sid

text \<open>
  The destructuring default \<^verbatim>\<open>const { inputTypes = ['tel'], value = '' } = props\<close>:
  an absent prop is \<open>None\<close>.
\<close>

definition inputTypes_of :: "InputType list option \<Rightarrow> InputType list" where
  "inputTypes_of p = (case p of None \<Rightarrow> [Tel] | Some tys \<Rightarrow> tys)"

definition value_of :: "jsstring option \<Rightarrow> jsstring" where
  "value_of p = (case p of None \<Rightarrow> [] | Some v \<Rightarrow> v)"

text \<open>
  \<^verbatim>\<open>props.disabled\<close> is an optional boolean; it is used only for its truthiness.
\<close>

definition truthy :: "bool option \<Rightarrow> bool" where
  "truthy d = (case d of None \<Rightarrow> False | Some b \<Rightarrow> b)"

text \<open>\<^verbatim>\<open>inputTypes.includes(t)\<close>\<close>

definition inputTypes_includes :: "InputType list \<Rightarrow> InputType \<Rightarrow> bool" where
  "inputTypes_includes tys t = (t \<in> set tys)"

text \<open>
  \<^verbatim>\<open>const onlyTel = inputTypes.length === 1 && inputTypes[0] === 'tel'\<close> and
  \<^verbatim>\<open>const onlySID = inputTypes.length === 1 && inputTypes[0] === 'sid'\<close>.
  The index is read only when the length is 1.
\<close>

definition onlyTel :: "InputType list \<Rightarrow> bool" where
  "onlyTel inputTypes = (length inputTypes = 1 \<and> inputTypes ! 0 = Tel)"

definition onlySID :: "InputType list \<Rightarrow> bool" where
  "onlySID inputTypes = (length inputTypes = 1 \<and> inputTypes ! 0 = Sid)"

section \<open>The regular expressions\<close>

text \<open>
  \<^verbatim>\<open>const reTel = /^\+\d+/\<close>, used through \<^verbatim>\<open>reTel.test(s)\<close>: anchored at the
  start, a \<^verbatim>\<open>+\<close> (U+002B), then the longest run of digits, which must not be empty.
  Nothing is required of the rest of the string.
\<close>

definition reTel_test :: "jsstring \<Rightarrow> bool" where
  "reTel_test s = (case s of [] \<Rightarrow> False
                   | c # cs \<Rightarrow> c = 0x2B \<and> takeWhile is_digit cs \<noteq> [])"

text \<open>
  \<^verbatim>\<open>const reSID = /^MG[a-zA-Z0-9]+/\<close>: anchored at the start, \<^verbatim>\<open>M\<close> (U+004D),
  \<^verbatim>\<open>G\<close> (U+0047), then a non-empty run of ASCII letters and digits.
\<close>

definition reSID_test :: "jsstring \<Rightarrow> bool" where
  "reSID_test s = (case s of c # d # cs \<Rightarrow> c = 0x4D \<and> d = 0x47 \<and> takeWhile is_alnum cs \<noteq> []
                   | _ \<Rightarrow> False)"

text \<open>\<^verbatim>\<open>/^[+\d(]/.test(s)\<close>: the first code unit is \<^verbatim>\<open>+\<close>, a digit or \<^verbatim>\<open>(\<close> (U+0028).\<close>

definition reLikeTel_test :: "jsstring \<Rightarrow> bool" where
  "reLikeTel_test s = (case s of [] \<Rightarrow> False
                       | c # cs \<Rightarrow> c = 0x2B \<or> is_digit c \<or> c = 0x28)"

section \<open>Classification and the validation trigger\<close>

text \<open>
  \<^verbatim>\<open>const isSID = (s) => inputTypes.includes('sid') && reSID.test(s)\<close>
\<close>

definition isSID :: "InputType list \<Rightarrow> jsstring \<Rightarrow> bool" where
  "isSID inputTypes s = (inputTypes_includes inputTypes Sid \<and> reSID_test s)"

text \<open>
  \<^verbatim>\<open>skipValidation\<close>, with the variables its closure reads as arguments. Its result is
  the \<^verbatim>\<open>skip\<close> option of the \<^verbatim>\<open>useQuery\<close> call whose variable is
  \<^verbatim>\<open>debouncedValue\<close>: the remote lookup is issued exactly when it is \<open>False\<close>.
  \<^verbatim>\<open>!debouncedValue\<close> holds of a string exactly when it is empty.
\<close>

definition skipValidation :: "InputType list \<Rightarrow> bool option \<Rightarrow> jsstring \<Rightarrow> bool" where
  "skipValidation inputTypes disabled debouncedValue =
     (if debouncedValue = [] \<or> truthy disabled \<or> \<not> inputTypes_includes inputTypes Tel then True
      else if onlyTel inputTypes \<and> \<not> reTel_test debouncedValue then True
      else if isSID inputTypes debouncedValue then True
      else if onlySID inputTypes then True
      else False)"

section \<open>The indicator\<close>

text \<open>
  The result of the lookup: \<^verbatim>\<open>data\<close> is undefined until a response is there (and
  always while the query is skipped), and \<^verbatim>\<open>data.phoneNumberInfo\<close> may be null.
\<close>

record PhoneNumberInfo =
  info_id :: jsstring
  info_valid :: bool

record QueryData =
  phoneNumberInfo :: "PhoneNumberInfo option"

text \<open>\<^verbatim>\<open>const valid = Boolean(data?.phoneNumberInfo?.valid)\<close>\<close>

definition valid_of :: "QueryData option \<Rightarrow> bool" where
  "valid_of data =
     (case data of None \<Rightarrow> False
      | Some d \<Rightarrow> (case phoneNumberInfo d of None \<Rightarrow> False | Some i \<Rightarrow> info_valid i))"

text \<open>
  The adornment: \<^verbatim>\<open>adorn\<close> stays undefined (\<open>None\<close>), or is the \<^verbatim>\<open>Check\<close> icon
  (class \<^verbatim>\<open>valid\<close>) or the \<^verbatim>\<open>Close\<close> icon (class \<^verbatim>\<open>invalid\<close>).
\<close>

datatype Icon = Check | Close

definition adorn :: "InputType list \<Rightarrow> bool option \<Rightarrow> jsstring \<Rightarrow> QueryData option \<Rightarrow> Icon option" where
  "adorn inputTypes disabled val data =
     (if val = [] \<or> isSID inputTypes val \<or> truthy disabled then None
      else if valid_of data then Some Check
      else Some Close)"


section \<open>The change handler\<close>

text \<open>
  The change event, as far as the handler reads and writes it: \<^verbatim>\<open>e.target.value\<close>.
\<close>

record event =
  target_value :: jsstring

text \<open>
  \<^verbatim>\<open>handleChange\<close>. The host's callback \<^verbatim>\<open>props.onChange\<close> is optional; when it is
  there it acts on the host's state \<open>'h\<close>. The handler returns the event as it leaves it
  and the host's state after the call, if any:
  \<^verbatim>\<open>
  if (!props.onChange) return
  if (!e.target.value) return props.onChange(e)
  const isLikeTel = /^[+\d(]/.test(e.target.value.trimLeft())
  if (onlyTel || isLikeTel) {
    e.target.value = '+' + e.target.value.replace(/[^0-9]/g, '')
  } else {
    e.target.value = e.target.value.replace(/[^a-zA-Z0-9]/g, '')
  }
  return props.onChange(e)
  \<close>
  Replacing every match of a negated one-character class by the empty string keeps
  exactly the characters of the class, in order.
\<close>

definition handleChange ::
  "InputType list \<Rightarrow> (event \<Rightarrow> 'h \<Rightarrow> 'h) option \<Rightarrow> event \<Rightarrow> 'h \<Rightarrow> event \<times> 'h" where
  "handleChange inputTypes onChange e h =
     (case onChange of
        None \<Rightarrow> (e, h)
      | Some cb \<Rightarrow>
          if target_value e = [] then (e, cb e h)
          else
            let isLikeTel = reLikeTel_test (trimLeft (target_value e));
                e' = (if onlyTel inputTypes \<or> isLikeTel
                      then e\<lparr>target_value := 0x2B # filter is_digit (target_value e)\<rparr>
                      else e\<lparr>target_value := filter is_alnum (target_value e)\<rparr>)
            in (e', cb e' h))"


section \<open>The debounce effect\<close>

text \<open>
  \<^verbatim>\<open>
  const [debouncedValue, setDebouncedValue] = useState('')
  useEffect(() => {
    const t = setTimeout(() => { setDebouncedValue(value) }, DEBOUNCE_DELAY)
    return () => clearTimeout(t)
  }, [value])
  \<close>
  The component's state and the part of its environment the effect touches are one
  record: the clock (milliseconds), the environment's table of pending timers, the next
  timer id, the state variable \<^verbatim>\<open>debouncedValue\<close>, the dependency list \<^verbatim>\<open>[value]\<close>
  of the last run of the effect (none before the first render), the timer id captured by
  the cleanup function the last run returned, and whether the component was unmounted.
  A pending timer is its id, the time it is due and the \<^verbatim>\<open>value\<close> its callback
  captured. \<^verbatim>\<open>DEBOUNCE_DELAY\<close> is imported from the configuration; it is the
  parameter \<open>delay\<close>, a whole number of milliseconds.
\<close>

type_synonym timer = "nat \<times> nat \<times> jsstring"

record component =
  now :: nat
  timers :: "timer list"
  next_id :: nat
  debouncedValue :: jsstring
  deps :: "jsstring option"
  cleanup :: "nat option"
  unmounted :: bool

text \<open>Before the first render: \<^verbatim>\<open>useState('')\<close>, no effect has run.\<close>

definition initial :: component where
  "initial = \<lparr>now = 0, timers = [], next_id = 1, debouncedValue = [], deps = None,
              cleanup = None, unmounted = False\<rparr>"

text \<open>
  The browser's \<^verbatim>\<open>setTimeout\<close> takes its timeout as a signed 32-bit integer (a Web
  IDL \<^verbatim>\<open>long\<close>): the number is reduced modulo \<open>2^32\<close> into the range from
  \<open>- 2^31\<close> to \<open>2^31 - 1\<close>, and a negative timeout counts as 0. So a delay from
  \<open>2^31\<close> to \<open>2^32 - 1\<close> is a timer that is due at once. Below \<open>2^31\<close> the
  timeout is the delay itself.
\<close>

definition timeout_ms :: "nat \<Rightarrow> nat" where
  "timeout_ms delay = (let m = delay mod 2 ^ 32 in if m < 2 ^ 31 then m else 0)"

text \<open>
  \<^verbatim>\<open>setTimeout(() => setDebouncedValue(value), DEBOUNCE_DELAY)\<close> registers a timer
  under a fresh id and returns the id; \<^verbatim>\<open>clearTimeout(t)\<close> removes the timer with
  that id, if it is still pending.
\<close>

definition setTimeout :: "nat \<Rightarrow> jsstring \<Rightarrow> component \<Rightarrow> nat \<times> component" where
  "setTimeout delay v s =
     (next_id s,
      s\<lparr>timers := timers s @ [(next_id s, now s + timeout_ms delay, v)],
        next_id := Suc (next_id s)\<rparr>)"

definition clearTimeout :: "nat \<Rightarrow> component \<Rightarrow> component" where
  "clearTimeout t s = s\<lparr>timers := filter (\<lambda>(i, due, v). i \<noteq> t) (timers s)\<rparr>"

text \<open>
  The body of the effect, run for a render with prop \<open>v\<close>: it sets the timer and
  returns the cleanup function, which is kept as the id it will clear.
\<close>

definition effect :: "nat \<Rightarrow> jsstring \<Rightarrow> component \<Rightarrow> component" where
  "effect delay v s = (case setTimeout delay v s of (t, s') \<Rightarrow> s'\<lparr>cleanup := Some t\<rparr>)"

text \<open>The cleanup function of the last run of the effect: \<^verbatim>\<open>() => clearTimeout(t)\<close>.\<close>

definition run_cleanup :: "component \<Rightarrow> component" where
  "run_cleanup s = (case cleanup s of None \<Rightarrow> s
                    | Some t \<Rightarrow> (clearTimeout t s)\<lparr>cleanup := None\<rparr>)"

text \<open>
  A render with prop \<^verbatim>\<open>value = v\<close>. React runs an effect with dependency list
  \<^verbatim>\<open>[value]\<close> on the first render and whenever \<^verbatim>\<open>value\<close> differs from the one of
  the last run, after the cleanup of the last run; on unmount it runs the cleanup. An
  unmounted component is not rendered again. The time of a change of the value is the
  time at which its effect runs.
\<close>

definition render :: "nat \<Rightarrow> jsstring \<Rightarrow> component \<Rightarrow> component" where
  "render delay v s =
     (if unmounted s \<or> deps s = Some v then s
      else (effect delay v (run_cleanup s))\<lparr>deps := Some v\<rparr>)"

definition unmount :: "component \<Rightarrow> component" where
  "unmount s = (run_cleanup s)\<lparr>unmounted := True\<rparr>"

text \<open>
  The environment runs the callback of timer \<open>t\<close>: possible only while the timer is
  pending and not before it is due (it may be late). The timer is removed and the
  callback \<^verbatim>\<open>setDebouncedValue(value)\<close> stores the captured value. No guard of
  React's for unmounted components is modelled: the state is written whenever a
  callback runs.
\<close>

definition fire :: "nat \<Rightarrow> component \<Rightarrow> component" where
  "fire t s =
     (case find (\<lambda>(i, due, v). i = t) (timers s) of
        None \<Rightarrow> s
      | Some (i, due, v) \<Rightarrow>
          if due \<le> now s then (clearTimeout t s)\<lparr>debouncedValue := v\<rparr> else s)"

definition advance :: "nat \<Rightarrow> component \<Rightarrow> component" where
  "advance n s = s\<lparr>now := now s + n\<rparr>"

text \<open>
  What can happen to the component: the host renders it with a value, unmounts it,
  time passes, or the environment tries to run a timer.
\<close>

datatype action = Render jsstring | Unmount | Advance nat | Fire nat

fun step :: "nat \<Rightarrow> action \<Rightarrow> component \<Rightarrow> component" where
  "step delay (Render v) s = render delay v s"
| "step delay Unmount s = unmount s"
| "step delay (Advance n) s = advance n s"
| "step delay (Fire t) s = fire t s"

fun run :: "nat \<Rightarrow> action list \<Rightarrow> component \<Rightarrow> component" where
  "run delay [] s = s"
| "run delay (a # as) s = run delay as (step delay a s)"

fun is_Render :: "action \<Rightarrow> bool" where
  "is_Render (Render v) = True"
| "is_Render _ = False"

text \<open>The time that passes in a list of actions.\<close>

fun elapsed :: "action list \<Rightarrow> nat" where
  "elapsed [] = 0"
| "elapsed (Advance n # as) = n + elapsed as"
| "elapsed (_ # as) = elapsed as"

text \<open>A list of actions in which the host does nothing: time passes and timers are tried.\<close>

fun quiet :: "action list \<Rightarrow> bool" where
  "quiet [] = True"
| "quiet (Advance n # as) = quiet as"
| "quiet (Fire t # as) = quiet as"
| "quiet (_ # as) = False"

text \<open>
  The invariant of the effect: at most one timer is pending, it is the one the cleanup
  will clear, it carries the value of the last render, and the component is mounted.
\<close>

definition timer_inv :: "component \<Rightarrow> bool" where
  "timer_inv s = (length (timers s) \<le> 1 \<and>
     (\<forall>(i, due, v) \<in> set (timers s). cleanup s = Some i \<and> deps s = Some v \<and> \<not> unmounted s))"

section \<open>Facts about the patterns and the mode\<close>

lemma onlyTel_iff: "onlyTel tys \<longleftrightarrow> tys = [Tel]"
  by (cases tys) (auto simp: onlyTel_def)

lemma onlySID_iff: "onlySID tys \<longleftrightarrow> tys = [Sid]"
  by (cases tys) (auto simp: onlySID_def)

text \<open>Without the props, the mode is \<^verbatim>\<open>['tel']\<close> and the value is empty.\<close>

lemma default_props: "onlyTel (inputTypes_of None) \<and> value_of None = []"
  by (simp add: inputTypes_of_def value_of_def onlyTel_def)

lemma takeWhile_nonempty_iff:
  "takeWhile P xs \<noteq> [] \<longleftrightarrow> (\<exists>ys zs. ys \<noteq> [] \<and> list_all P ys \<and> xs = ys @ zs)"
proof
  assume "takeWhile P xs \<noteq> []"
  moreover have "list_all P (takeWhile P xs)"
    by (simp add: list_all_iff) (meson set_takeWhileD)
  moreover have "xs = takeWhile P xs @ dropWhile P xs"
    by simp
  ultimately show "\<exists>ys zs. ys \<noteq> [] \<and> list_all P ys \<and> xs = ys @ zs"
    by blast
next
  assume "\<exists>ys zs. ys \<noteq> [] \<and> list_all P ys \<and> xs = ys @ zs"
  then obtain y ys zs where "P y" "xs = (y # ys) @ zs"
    by (cases xs) (auto simp: neq_Nil_conv)
  then show "takeWhile P xs \<noteq> []"
    by simp
qed

lemma reTel_test_iff:
  "reTel_test s \<longleftrightarrow> (\<exists>ds rest. ds \<noteq> [] \<and> list_all is_digit ds \<and> s = 0x2B # ds @ rest)"
  by (cases s) (auto simp: reTel_test_def takeWhile_nonempty_iff)

lemma reSID_test_iff:
  "reSID_test s \<longleftrightarrow>
     (\<exists>cs rest. cs \<noteq> [] \<and> list_all is_alnum cs \<and> s = 0x4D # 0x47 # cs @ rest)"
proof (cases s)
  case Nil
  then show ?thesis by (simp add: reSID_test_def)
next
  case (Cons c t)
  then show ?thesis
    by (cases t) (auto simp: reSID_test_def takeWhile_nonempty_iff)
qed

section \<open>The skip conditions\<close>

text \<open>
  C1. The lookup for the debounced value is skipped if and only if one of six conditions
  holds: the debounced value is empty; the field is disabled; the mode does not include
  \<^verbatim>\<open>tel\<close>; the mode is exactly \<^verbatim>\<open>['tel']\<close> and the value does not start with
  \<^verbatim>\<open>+\<close> followed by one or more digits; the value starts with \<^verbatim>\<open>MG\<close> followed by
  one or more alphanumerics and the mode includes \<^verbatim>\<open>sid\<close>; the mode is exactly
  \<^verbatim>\<open>['sid']\<close>. In mode \<^verbatim>\<open>['tel']\<close>, with the field not disabled, the value
  \<^verbatim>\<open>+14155551234\<close> is not skipped.
\<close>

theorem skipValidation_six_conditions:
  "(skipValidation inputTypes disabled dv \<longleftrightarrow>
      dv = []
      \<or> truthy disabled
      \<or> Tel \<notin> set inputTypes
      \<or> (inputTypes = [Tel]
          \<and> \<not> (\<exists>ds rest. ds \<noteq> [] \<and> list_all is_digit ds \<and> dv = 0x2B # ds @ rest))
      \<or> ((\<exists>cs rest. cs \<noteq> [] \<and> list_all is_alnum cs \<and> dv = 0x4D # 0x47 # cs @ rest)
          \<and> Sid \<in> set inputTypes)
      \<or> inputTypes = [Sid])
   \<and> (\<not> truthy disabled \<longrightarrow> \<not> skipValidation [Tel] disabled (js ''+14155551234''))"
proof
  show "skipValidation inputTypes disabled dv \<longleftrightarrow>
      dv = []
      \<or> truthy disabled
      \<or> Tel \<notin> set inputTypes
      \<or> (inputTypes = [Tel]
          \<and> \<not> (\<exists>ds rest. ds \<noteq> [] \<and> list_all is_digit ds \<and> dv = 0x2B # ds @ rest))
      \<or> ((\<exists>cs rest. cs \<noteq> [] \<and> list_all is_alnum cs \<and> dv = 0x4D # 0x47 # cs @ rest)
          \<and> Sid \<in> set inputTypes)
      \<or> inputTypes = [Sid]"
    unfolding skipValidation_def isSID_def inputTypes_includes_def onlyTel_iff onlySID_iff
      reTel_test_iff [symmetric] reSID_test_iff [symmetric]
    by auto
  show "\<not> truthy disabled \<longrightarrow> \<not> skipValidation [Tel] disabled (js ''+14155551234'')"
    by (simp add: skipValidation_def isSID_def inputTypes_includes_def onlyTel_def onlySID_def
        reTel_test_def js_def is_digit_def)
qed

theorem skipValidation_six_conditions_witness:
  "skipValidation [Sid] None (js ''+14155551234'')
   \<and> Tel \<notin> set [Sid]
   \<and> \<not> truthy (Some False)
   \<and> \<not> skipValidation [Tel] (Some False) (js ''+14155551234'')
   \<and> skipValidation [Tel] (Some False) (js ''123'')
   \<and> skipValidation [Tel, Sid] (Some False) (js ''MGabc123'')"
proof -
  have a: "Tel \<notin> set [Sid]" by simp
  have b: "\<not> truthy (Some False)" by (simp add: truthy_def)
  have c: "skipValidation [Sid] None (js ''+14155551234'')"
    using skipValidation_six_conditions [of "[Sid]" None "js ''+14155551234''"] a by blast
  have d: "\<not> skipValidation [Tel] (Some False) (js ''+14155551234'')"
    using skipValidation_six_conditions [of "[Tel]" "Some False" "[]"] b by blast
  have e: "skipValidation [Tel] (Some False) (js ''123'')"
    using skipValidation_six_conditions [of "[Tel]" "Some False" "js ''123''"]
    by (simp add: js_def)
  have f: "skipValidation [Tel, Sid] (Some False) (js ''MGabc123'')"
    using skipValidation_six_conditions [of "[Tel, Sid]" "Some False" "js ''MGabc123''"]
      reSID_test_iff [of "js ''MGabc123''"]
    by (simp add: js_def reSID_test_def is_alnum_def is_digit_def)
  from a b c d e f show ?thesis by blast
qed

section \<open>Identifier classification\<close>

text \<open>
  C2, as the code has it. A string is classified as an identifier exactly when the mode
  includes \<^verbatim>\<open>sid\<close> and the string starts with \<^verbatim>\<open>MG\<close> followed by one or more
  alphanumeric characters. The classification depends on the mode, but only through
  whether the mode includes \<^verbatim>\<open>sid\<close>.
\<close>

theorem isSID_iff_sid_and_pattern:
  "(isSID inputTypes s \<longleftrightarrow>
      Sid \<in> set inputTypes
      \<and> (\<exists>cs rest. cs \<noteq> [] \<and> list_all is_alnum cs \<and> s = 0x4D # 0x47 # cs @ rest))
   \<and> ((Sid \<in> set inputTypes) = (Sid \<in> set inputTypes') \<longrightarrow>
        isSID inputTypes s = isSID inputTypes' s)"
  unfolding isSID_def inputTypes_includes_def reSID_test_iff [symmetric]
  by simp

theorem isSID_iff_sid_and_pattern_witness:
  "isSID [Tel, Sid] (js ''MGabc'') \<and> isSID [Sid] (js ''MGabc'')
   \<and> (Sid \<in> set [Tel, Sid]) = (Sid \<in> set [Sid])"
proof -
  have a: "(Sid \<in> set [Tel, Sid]) = (Sid \<in> set [Sid])" by simp
  have b: "isSID [Sid] (js ''MGabc'')"
    by (simp add: isSID_def inputTypes_includes_def reSID_test_def js_def is_alnum_def)
  have c: "isSID [Tel, Sid] (js ''MGabc'')"
    using isSID_iff_sid_and_pattern [of "[Tel, Sid]" "js ''MGabc''" "[Sid]"] a b by blast
  from a b c show ?thesis by blast
qed

text \<open>
  The claim as written fails: in mode \<^verbatim>\<open>['tel']\<close> the string \<^verbatim>\<open>MGabc\<close> matches
  the pattern and is not classified as an identifier, while in mode
  \<^verbatim>\<open>['tel', 'sid']\<close> it is.
\<close>

theorem isSID_mode_independent_counterexample:
  "reSID_test (js ''MGabc'') \<and> \<not> isSID [Tel] (js ''MGabc'') \<and> isSID [Tel, Sid] (js ''MGabc'')"
  by (simp add: isSID_def inputTypes_includes_def reSID_test_def js_def is_alnum_def)

section \<open>When a lookup is attempted\<close>

text \<open>
  C5, as the code has it. For every list of input kinds and every debounced value: when
  the lookup is not skipped, the mode includes \<^verbatim>\<open>tel\<close>; and if the list is exactly
  \<^verbatim>\<open>['tel']\<close> or includes \<^verbatim>\<open>sid\<close> (the modes tel-only, sid-only and mixed), the
  value does not start with \<^verbatim>\<open>MG\<close> followed by one or more alphanumeric characters.
  For a list that includes \<^verbatim>\<open>tel\<close>, is not exactly \<^verbatim>\<open>['tel']\<close> and does not
  include \<^verbatim>\<open>sid\<close>, the lookup is attempted for every non-empty value while the
  field is not disabled.
\<close>

theorem lookup_only_for_tel_non_identifier:
  "(\<not> skipValidation inputTypes disabled dv \<longrightarrow>
      Tel \<in> set inputTypes
      \<and> (inputTypes = [Tel] \<or> Sid \<in> set inputTypes \<longrightarrow>
           \<not> (\<exists>cs rest. cs \<noteq> [] \<and> list_all is_alnum cs \<and> dv = 0x4D # 0x47 # cs @ rest)))
   \<and> (Tel \<in> set inputTypes \<and> inputTypes \<noteq> [Tel] \<and> Sid \<notin> set inputTypes
        \<and> dv \<noteq> [] \<and> \<not> truthy disabled \<longrightarrow>
      \<not> skipValidation inputTypes disabled dv)"
proof (intro conjI impI)
  assume "\<not> skipValidation inputTypes disabled dv"
  then show "Tel \<in> set inputTypes"
    by (auto simp: skipValidation_def inputTypes_includes_def split: if_splits)
next
  assume ns: "\<not> skipValidation inputTypes disabled dv"
    and mode: "inputTypes = [Tel] \<or> Sid \<in> set inputTypes"
  from ns have phone: "onlyTel inputTypes \<longrightarrow> reTel_test dv"
    and sid: "\<not> isSID inputTypes dv"
    by (auto simp: skipValidation_def split: if_splits)
  have "\<not> reSID_test dv"
  proof (cases "onlyTel inputTypes")
    case True
    with phone have "reTel_test dv" by simp
    then obtain cs where "dv = 0x2B # cs"
      by (cases dv) (auto simp: reTel_test_def)
    then show ?thesis
      by (cases cs) (simp_all add: reSID_test_def)
  next
    case False
    with mode have "Sid \<in> set inputTypes"
      by (simp add: onlyTel_iff)
    with sid show ?thesis
      by (simp add: isSID_def inputTypes_includes_def)
  qed
  then show "\<not> (\<exists>cs rest. cs \<noteq> [] \<and> list_all is_alnum cs \<and> dv = 0x4D # 0x47 # cs @ rest)"
    by (simp add: reSID_test_iff)
next
  assume "Tel \<in> set inputTypes \<and> inputTypes \<noteq> [Tel] \<and> Sid \<notin> set inputTypes
        \<and> dv \<noteq> [] \<and> \<not> truthy disabled"
  then show "\<not> skipValidation inputTypes disabled dv"
    by (auto simp: skipValidation_def isSID_def inputTypes_includes_def onlyTel_iff onlySID_iff)
qed

theorem lookup_only_for_tel_non_identifier_witness:
  "\<not> skipValidation [Tel, Sid] None (js ''+14155551234'')
   \<and> Tel \<in> set [Tel, Sid]
   \<and> Sid \<in> set [Tel, Sid]
   \<and> \<not> (\<exists>cs rest. cs \<noteq> [] \<and> list_all is_alnum cs
         \<and> js ''+14155551234'' = 0x4D # 0x47 # cs @ rest)
   \<and> Tel \<in> set [Tel, Tel, Tel] \<and> [Tel, Tel, Tel] \<noteq> [Tel] \<and> Sid \<notin> set [Tel, Tel, Tel]
   \<and> js ''+1'' \<noteq> [] \<and> \<not> truthy None
   \<and> \<not> skipValidation [Tel, Tel, Tel] None (js ''+1'')"
proof -
  have a: "\<not> skipValidation [Tel, Sid] None (js ''+14155551234'')"
    by (simp add: skipValidation_def isSID_def inputTypes_includes_def onlyTel_def onlySID_def
        reSID_test_def truthy_def js_def)
  have b: "Sid \<in> set [Tel, Sid]" by simp
  have c: "Tel \<in> set [Tel, Tel, Tel] \<and> [Tel, Tel, Tel] \<noteq> [Tel] \<and> Sid \<notin> set [Tel, Tel, Tel]
      \<and> js ''+1'' \<noteq> [] \<and> \<not> truthy None"
    by (simp add: js_def truthy_def)
  from lookup_only_for_tel_non_identifier [of "[Tel, Sid]" None "js ''+14155551234''"] a b
  have d: "Tel \<in> set [Tel, Sid]
      \<and> \<not> (\<exists>cs rest. cs \<noteq> [] \<and> list_all is_alnum cs
            \<and> js ''+14155551234'' = 0x4D # 0x47 # cs @ rest)"
    by blast
  from lookup_only_for_tel_non_identifier [of "[Tel, Tel, Tel]" None "js ''+1''"] c
  have e: "\<not> skipValidation [Tel, Tel, Tel] None (js ''+1'')"
    by blast
  from a b c d e show ?thesis by blast
qed

text \<open>
  The claim as written fails for a list that repeats \<^verbatim>\<open>tel\<close>, which the prop's type
  \<^verbatim>\<open>InputType[]\<close> admits: \<^verbatim>\<open>['tel', 'tel']\<close> is neither \<^verbatim>\<open>onlyTel\<close> nor
  includes \<^verbatim>\<open>sid\<close>, and the lookup is attempted for \<^verbatim>\<open>MGabc\<close>, which matches the
  identifier pattern.
\<close>

theorem lookup_only_for_tel_non_identifier_counterexample:
  "\<not> skipValidation [Tel, Tel] None (js ''MGabc'') \<and> reSID_test (js ''MGabc'')"
  by (simp add: skipValidation_def isSID_def inputTypes_includes_def onlyTel_def onlySID_def
      reSID_test_def truthy_def js_def is_alnum_def)

section \<open>The indicator shown\<close>

text \<open>
  C4, as the code has it. No indicator is shown exactly when the value is empty, or the
  mode includes \<^verbatim>\<open>sid\<close> and the value starts with \<^verbatim>\<open>MG\<close> followed by one or more
  alphanumeric characters, or the field is disabled. Otherwise the valid indicator is
  shown exactly when the lookup's data says valid, and the invalid indicator in every
  other case (no data, no phone number info, or not valid). With the value \<^verbatim>\<open>MGxyz\<close>
  in mode \<^verbatim>\<open>['tel', 'sid']\<close>, and with the empty value, no indicator is shown whatever
  the data.
\<close>

theorem adorn_cases:
  "(adorn inputTypes disabled v data = None \<longleftrightarrow>
      v = []
      \<or> (Sid \<in> set inputTypes
          \<and> (\<exists>cs rest. cs \<noteq> [] \<and> list_all is_alnum cs \<and> v = 0x4D # 0x47 # cs @ rest))
      \<or> truthy disabled)
   \<and> (adorn inputTypes disabled v data = Some Check \<longleftrightarrow>
        adorn inputTypes disabled v data \<noteq> None
        \<and> (\<exists>d i. data = Some d \<and> phoneNumberInfo d = Some i \<and> info_valid i))
   \<and> (adorn inputTypes disabled v data = Some Close \<longleftrightarrow>
        adorn inputTypes disabled v data \<noteq> None
        \<and> \<not> (\<exists>d i. data = Some d \<and> phoneNumberInfo d = Some i \<and> info_valid i))
   \<and> adorn [Tel, Sid] disabled (js ''MGxyz'') data = None
   \<and> adorn inputTypes disabled [] data = None"
proof -
  have v: "valid_of data \<longleftrightarrow> (\<exists>d i. data = Some d \<and> phoneNumberInfo d = Some i \<and> info_valid i)"
    by (auto simp: valid_of_def split: option.splits)
  have s: "isSID inputTypes v \<longleftrightarrow>
      Sid \<in> set inputTypes
      \<and> (\<exists>cs rest. cs \<noteq> [] \<and> list_all is_alnum cs \<and> v = 0x4D # 0x47 # cs @ rest)"
    by (simp add: isSID_def inputTypes_includes_def reSID_test_iff)
  have 1: "adorn inputTypes disabled v data = None \<longleftrightarrow>
      v = []
      \<or> (Sid \<in> set inputTypes
          \<and> (\<exists>cs rest. cs \<noteq> [] \<and> list_all is_alnum cs \<and> v = 0x4D # 0x47 # cs @ rest))
      \<or> truthy disabled"
    unfolding s [symmetric] by (simp add: adorn_def)
  have 2: "adorn inputTypes disabled v data = Some Check \<longleftrightarrow>
        adorn inputTypes disabled v data \<noteq> None
        \<and> (\<exists>d i. data = Some d \<and> phoneNumberInfo d = Some i \<and> info_valid i)"
    unfolding v [symmetric] by (simp add: adorn_def)
  have 3: "adorn inputTypes disabled v data = Some Close \<longleftrightarrow>
        adorn inputTypes disabled v data \<noteq> None
        \<and> \<not> (\<exists>d i. data = Some d \<and> phoneNumberInfo d = Some i \<and> info_valid i)"
    unfolding v [symmetric] by (simp add: adorn_def)
  have 4: "adorn [Tel, Sid] disabled (js ''MGxyz'') data = None"
    by (simp add: adorn_def isSID_def inputTypes_includes_def reSID_test_def js_def is_alnum_def)
  have 5: "adorn inputTypes disabled [] data = None"
    by (simp add: adorn_def)
  from 1 2 3 4 5 show ?thesis by blast
qed

theorem adorn_cases_witness:
  "adorn [Tel] None (js ''+1415'')
     (Some \<lparr>phoneNumberInfo = Some \<lparr>info_id = js ''+1415'', info_valid = True\<rparr>\<rparr>) = Some Check
   \<and> adorn [Tel] None (js ''+1415'') None = Some Close
   \<and> adorn [Tel, Sid] None (js ''MGxyz'')
       (Some \<lparr>phoneNumberInfo = Some \<lparr>info_id = js ''MGxyz'', info_valid = True\<rparr>\<rparr>) = None"
proof -
  have a: "adorn [Tel] None (js ''+1415'')
     (Some \<lparr>phoneNumberInfo = Some \<lparr>info_id = js ''+1415'', info_valid = True\<rparr>\<rparr>) \<noteq> None"
    by (simp add: adorn_def isSID_def inputTypes_includes_def truthy_def js_def)
  have b: "adorn [Tel] None (js ''+1415'') None \<noteq> None"
    by (simp add: adorn_def isSID_def inputTypes_includes_def truthy_def js_def)
  have c: "adorn [Tel] None (js ''+1415'')
     (Some \<lparr>phoneNumberInfo = Some \<lparr>info_id = js ''+1415'', info_valid = True\<rparr>\<rparr>) = Some Check"
    using adorn_cases [of "[Tel]" None "js ''+1415''"
        "Some \<lparr>phoneNumberInfo = Some \<lparr>info_id = js ''+1415'', info_valid = True\<rparr>\<rparr>"] a
    by simp
  have d: "adorn [Tel] None (js ''+1415'') None = Some Close"
    using adorn_cases [of "[Tel]" None "js ''+1415''" None] b by simp
  have e: "adorn [Tel, Sid] None (js ''MGxyz'')
       (Some \<lparr>phoneNumberInfo = Some \<lparr>info_id = js ''MGxyz'', info_valid = True\<rparr>\<rparr>) = None"
    using adorn_cases [of "[Tel, Sid]" None "[]"
        "Some \<lparr>phoneNumberInfo = Some \<lparr>info_id = js ''MGxyz'', info_valid = True\<rparr>\<rparr>"]
    by blast
  from c d e show ?thesis by blast
qed

text \<open>
  The claim as written fails where the mode does not include \<^verbatim>\<open>sid\<close>: in mode
  \<^verbatim>\<open>['tel']\<close> the value \<^verbatim>\<open>MGxyz\<close> matches the identifier pattern, the field is not
  disabled, and the invalid indicator is shown.
\<close>

theorem adorn_identifier_tel_only_counterexample:
  "reSID_test (js ''MGxyz'') \<and> js ''MGxyz'' \<noteq> [] \<and> \<not> truthy None
   \<and> adorn [Tel] None (js ''MGxyz'') None = Some Close"
  by (simp add: adorn_def isSID_def inputTypes_includes_def reSID_test_def truthy_def
      valid_of_def js_def is_alnum_def)

section \<open>Normalisation by the change handler\<close>

lemma alnum_not_space: "is_alnum c \<Longrightarrow> \<not> is_space c"
  by (auto simp: is_alnum_def is_digit_def is_space_def word_le_nat_alt)

lemma filter_all: "list_all P xs \<Longrightarrow> filter P xs = xs"
  by (induction xs) auto

lemma list_all_filter: "list_all P (filter P xs)"
  by (induction xs) auto

lemma handleChange_Some:
  "target_value e \<noteq> [] \<Longrightarrow>
   handleChange inputTypes (Some cb) e h =
     (if onlyTel inputTypes \<or> reLikeTel_test (trimLeft (target_value e))
      then (e\<lparr>target_value := 0x2B # filter is_digit (target_value e)\<rparr>,
            cb (e\<lparr>target_value := 0x2B # filter is_digit (target_value e)\<rparr>) h)
      else (e\<lparr>target_value := filter is_alnum (target_value e)\<rparr>,
            cb (e\<lparr>target_value := filter is_alnum (target_value e)\<rparr>) h))"
  by (simp add: handleChange_def Let_def)

text \<open>
  C6. In mode \<^verbatim>\<open>['tel']\<close>, with a change callback, a non-empty raw input is replaced
  by \<^verbatim>\<open>+\<close> followed by the digits of the input, in order: every other character, an
  embedded \<^verbatim>\<open>+\<close> included, is dropped, and the result matches \<^verbatim>\<open>^\+[0-9]*$\<close>. The
  callback receives the event with that value.
\<close>

theorem handleChange_tel_only:
  assumes "target_value e \<noteq> []"
  shows "handleChange [Tel] (Some cb) e h =
           (e\<lparr>target_value := 0x2B # filter is_digit (target_value e)\<rparr>,
            cb (e\<lparr>target_value := 0x2B # filter is_digit (target_value e)\<rparr>) h)
         \<and> (\<exists>ds. list_all is_digit ds
                \<and> target_value (fst (handleChange [Tel] (Some cb) e h)) = 0x2B # ds)
         \<and> \<not> is_digit 0x2B"
  using assms
  by (simp add: handleChange_Some onlyTel_def list_all_filter is_digit_def)

theorem handleChange_tel_only_witness:
  "target_value \<lparr>target_value = js ''+1 (415) 555+1234''\<rparr> \<noteq> []
   \<and> handleChange [Tel] (Some (\<lambda>e log. target_value e # log))
        \<lparr>target_value = js ''+1 (415) 555+1234''\<rparr> []
      = (\<lparr>target_value = js ''+14155551234''\<rparr>, [js ''+14155551234''])"
proof -
  have a: "target_value \<lparr>target_value = js ''+1 (415) 555+1234''\<rparr> \<noteq> []"
    by (simp add: js_def)
  from handleChange_tel_only [OF a, of "\<lambda>e log. target_value e # log" "[]"] a
  show ?thesis
    by (simp add: js_def is_digit_def)
qed

text \<open>
  C3, as the code has it. In mode \<^verbatim>\<open>['sid']\<close>, with a change callback, a non-empty
  raw input that, after its leading white space is removed, does not begin with
  \<^verbatim>\<open>+\<close>, a digit or \<^verbatim>\<open>(\<close> is replaced by its ASCII letters and digits, so the
  result matches \<^verbatim>\<open>^[a-zA-Z0-9]*$\<close>. An input that does begin so is replaced by
  \<^verbatim>\<open>+\<close> followed by its digits.
\<close>

theorem handleChange_sid_only:
  assumes "target_value e \<noteq> []"
  shows "(\<not> reLikeTel_test (trimLeft (target_value e)) \<longrightarrow>
            target_value (fst (handleChange [Sid] (Some cb) e h)) = filter is_alnum (target_value e)
            \<and> list_all is_alnum (target_value (fst (handleChange [Sid] (Some cb) e h))))
         \<and> (reLikeTel_test (trimLeft (target_value e)) \<longrightarrow>
            target_value (fst (handleChange [Sid] (Some cb) e h))
              = 0x2B # filter is_digit (target_value e))"
  using assms
  by (simp add: handleChange_Some onlyTel_def list_all_filter)

theorem handleChange_sid_only_witness:
  "target_value \<lparr>target_value = js '' MG-ab 12''\<rparr> \<noteq> []
   \<and> \<not> reLikeTel_test (trimLeft (target_value \<lparr>target_value = js '' MG-ab 12''\<rparr>))
   \<and> target_value (fst (handleChange [Sid] (Some (\<lambda>e log. target_value e # log))
                          \<lparr>target_value = js '' MG-ab 12''\<rparr> [])) = js ''MGab12''
   \<and> target_value \<lparr>target_value = js ''(415) 555''\<rparr> \<noteq> []
   \<and> reLikeTel_test (trimLeft (target_value \<lparr>target_value = js ''(415) 555''\<rparr>))
   \<and> target_value (fst (handleChange [Sid] (Some (\<lambda>e log. target_value e # log))
                          \<lparr>target_value = js ''(415) 555''\<rparr> [])) = js ''+415555''"
proof -
  have a: "target_value \<lparr>target_value = js '' MG-ab 12''\<rparr> \<noteq> []"
    by (simp add: js_def)
  have b: "\<not> reLikeTel_test (trimLeft (target_value \<lparr>target_value = js '' MG-ab 12''\<rparr>))"
    by (simp add: js_def reLikeTel_test_def trimLeft_def is_space_def is_digit_def)
  have c: "target_value \<lparr>target_value = js ''(415) 555''\<rparr> \<noteq> []"
    by (simp add: js_def)
  have d: "reLikeTel_test (trimLeft (target_value \<lparr>target_value = js ''(415) 555''\<rparr>))"
    by (simp add: js_def reLikeTel_test_def trimLeft_def is_space_def is_digit_def)
  from handleChange_sid_only [OF a, of "\<lambda>e log. target_value e # log" "[]"] b
  have e: "target_value (fst (handleChange [Sid] (Some (\<lambda>e log. target_value e # log))
                          \<lparr>target_value = js '' MG-ab 12''\<rparr> [])) = js ''MGab12''"
    by (simp add: js_def is_alnum_def is_digit_def)
  from handleChange_sid_only [OF c, of "\<lambda>e log. target_value e # log" "[]"] d
  have f: "target_value (fst (handleChange [Sid] (Some (\<lambda>e log. target_value e # log))
                          \<lparr>target_value = js ''(415) 555''\<rparr> [])) = js ''+415555''"
    by (simp add: js_def is_digit_def)
  from a b c d e f show ?thesis by blast
qed

text \<open>
  The claim as written fails: in mode \<^verbatim>\<open>['sid']\<close> the input \<^verbatim>\<open>1\<close> is replaced by
  \<^verbatim>\<open>+1\<close>, which does not match \<^verbatim>\<open>^[a-zA-Z0-9]*$\<close>.
\<close>

theorem handleChange_sid_only_counterexample:
  "target_value \<lparr>target_value = js ''1''\<rparr> \<noteq> []
   \<and> handleChange [Sid] (Some (\<lambda>e log. target_value e # log)) \<lparr>target_value = js ''1''\<rparr> []
      = (\<lparr>target_value = js ''+1''\<rparr>, [js ''+1''])
   \<and> \<not> list_all is_alnum (js ''+1'')"
  by (simp add: handleChange_def Let_def onlyTel_def reLikeTel_test_def trimLeft_def
      is_space_def is_digit_def is_alnum_def js_def)

section \<open>Idempotence\<close>

lemma trimLeft_alnum: "is_alnum c \<Longrightarrow> trimLeft (c # cs) = c # cs"
  by (simp add: trimLeft_def alnum_not_space)

text \<open>
  C7, as the code has it. In every mode, a value that is \<^verbatim>\<open>+\<close> followed by one or
  more digits is left as it is. A non-empty value of ASCII letters and digits only is
  left as it is when the mode is not exactly \<^verbatim>\<open>['tel']\<close> and the value does not begin
  with a digit. In both cases the callback receives the event unchanged.
\<close>

theorem handleChange_idempotent:
  "(ds \<noteq> [] \<and> list_all is_digit ds \<and> target_value e = 0x2B # ds \<longrightarrow>
      handleChange inputTypes (Some cb) e h = (e, cb e h))
   \<and> (target_value e \<noteq> [] \<and> list_all is_alnum (target_value e)
        \<and> inputTypes \<noteq> [Tel] \<and> \<not> is_digit (hd (target_value e)) \<longrightarrow>
      handleChange inputTypes (Some cb) e h = (e, cb e h))"
proof (intro conjI impI)
  assume a: "ds \<noteq> [] \<and> list_all is_digit ds \<and> target_value e = 0x2B # ds"
  then have ne: "target_value e \<noteq> []" by simp
  from a have like: "reLikeTel_test (trimLeft (target_value e))"
    by (simp add: reLikeTel_test_def trimLeft_def is_space_def)
  from a have "0x2B # filter is_digit (target_value e) = target_value e"
    by (simp add: filter_all is_digit_def)
  with like show "handleChange inputTypes (Some cb) e h = (e, cb e h)"
    by (simp add: handleChange_Some [OF ne])
next
  assume a: "target_value e \<noteq> [] \<and> list_all is_alnum (target_value e)
        \<and> inputTypes \<noteq> [Tel] \<and> \<not> is_digit (hd (target_value e))"
  then have ne: "target_value e \<noteq> []" by simp
  then obtain c cs where v: "target_value e = c # cs"
    by (cases "target_value e") auto
  with a have c: "is_alnum c" "\<not> is_digit c" by simp_all
  then have "c \<noteq> 0x2B" "c \<noteq> 0x28"
    by (auto simp: is_alnum_def is_digit_def)
  with c v have unlike: "\<not> reLikeTel_test (trimLeft (target_value e))"
    by (simp add: trimLeft_alnum reLikeTel_test_def)
  from a have "filter is_alnum (target_value e) = target_value e"
    by (simp add: filter_all)
  with unlike a show "handleChange inputTypes (Some cb) e h = (e, cb e h)"
    by (simp add: handleChange_Some [OF ne] onlyTel_iff)
qed

theorem handleChange_idempotent_witness:
  "handleChange [Tel, Sid] (Some (\<lambda>e log. target_value e # log))
      \<lparr>target_value = js ''+14155551234''\<rparr> []
     = (\<lparr>target_value = js ''+14155551234''\<rparr>, [js ''+14155551234''])
   \<and> handleChange [Tel, Sid] (Some (\<lambda>e log. target_value e # log))
      \<lparr>target_value = js ''MGabc123''\<rparr> []
     = (\<lparr>target_value = js ''MGabc123''\<rparr>, [js ''MGabc123''])"
proof -
  have a: "js ''14155551234'' \<noteq> [] \<and> list_all is_digit (js ''14155551234'')
      \<and> target_value \<lparr>target_value = js ''+14155551234''\<rparr> = 0x2B # js ''14155551234''"
    by (simp add: js_def is_digit_def)
  have b: "target_value \<lparr>target_value = js ''MGabc123''\<rparr> \<noteq> []
      \<and> list_all is_alnum (target_value \<lparr>target_value = js ''MGabc123''\<rparr>)
      \<and> [Tel, Sid] \<noteq> [Tel]
      \<and> \<not> is_digit (hd (target_value \<lparr>target_value = js ''MGabc123''\<rparr>))"
    by (simp add: js_def is_alnum_def is_digit_def)
  from a handleChange_idempotent [of "js ''14155551234''" "\<lparr>target_value = js ''+14155551234''\<rparr>"
      "[Tel, Sid]" "\<lambda>e log. target_value e # log" "[]"]
  have c: "handleChange [Tel, Sid] (Some (\<lambda>e log. target_value e # log))
      \<lparr>target_value = js ''+14155551234''\<rparr> []
     = (\<lparr>target_value = js ''+14155551234''\<rparr>, [js ''+14155551234''])"
    by simp
  from b handleChange_idempotent [of "[]" "\<lparr>target_value = js ''MGabc123''\<rparr>"
      "[Tel, Sid]" "\<lambda>e log. target_value e # log" "[]"]
  have d: "handleChange [Tel, Sid] (Some (\<lambda>e log. target_value e # log))
      \<lparr>target_value = js ''MGabc123''\<rparr> []
     = (\<lparr>target_value = js ''MGabc123''\<rparr>, [js ''MGabc123''])"
    by simp
  from c d show ?thesis by blast
qed

text \<open>
  The claim as written fails for values in identifier form: in mode \<^verbatim>\<open>['tel']\<close> the
  value \<^verbatim>\<open>MGabc123\<close> becomes \<^verbatim>\<open>+123\<close>, and in mode \<^verbatim>\<open>['sid']\<close> the value
  \<^verbatim>\<open>123abc\<close> becomes \<^verbatim>\<open>+123\<close>.
\<close>

theorem handleChange_idempotent_counterexample:
  "list_all is_alnum (js ''MGabc123'') \<and> js ''MGabc123'' \<noteq> []
   \<and> target_value (fst (handleChange [Tel] (Some (\<lambda>e log. target_value e # log))
                          \<lparr>target_value = js ''MGabc123''\<rparr> [])) = js ''+123''
   \<and> list_all is_alnum (js ''123abc'') \<and> js ''123abc'' \<noteq> []
   \<and> target_value (fst (handleChange [Sid] (Some (\<lambda>e log. target_value e # log))
                          \<lparr>target_value = js ''123abc''\<rparr> [])) = js ''+123''"
  by (simp add: handleChange_def Let_def onlyTel_def reLikeTel_test_def trimLeft_def
      is_space_def is_digit_def is_alnum_def js_def)

section \<open>Missing callback and empty value\<close>

text \<open>
  C9. Without a change callback the handler leaves the event as it is and notifies
  nobody: the host's state is unchanged. With a callback and an empty new value, the
  callback is invoked with the event unchanged.
\<close>

theorem handleChange_no_callback_or_empty:
  "handleChange inputTypes None e h = (e, h)
   \<and> (target_value e = [] \<longrightarrow> handleChange inputTypes (Some cb) e h = (e, cb e h))"
  by (simp add: handleChange_def)

theorem handleChange_no_callback_or_empty_witness:
  "target_value \<lparr>target_value = []\<rparr> = []
   \<and> handleChange [Tel] (Some (\<lambda>e log. target_value e # log)) \<lparr>target_value = []\<rparr> []
      = (\<lparr>target_value = []\<rparr>, [[]])
   \<and> handleChange [Tel] None \<lparr>target_value = js ''abc''\<rparr> ([] :: jsstring list)
      = (\<lparr>target_value = js ''abc''\<rparr>, [])"
proof -
  have a: "target_value \<lparr>target_value = []\<rparr> = []" by simp
  from a handleChange_no_callback_or_empty
    [of "[Tel]" "\<lparr>target_value = []\<rparr>" "[]" "\<lambda>e log. target_value e # log"]
  have b: "handleChange [Tel] (Some (\<lambda>e log. target_value e # log)) \<lparr>target_value = []\<rparr> []
      = (\<lparr>target_value = []\<rparr>, [[]])"
    by simp
  from handleChange_no_callback_or_empty
    [of "[Tel]" "\<lparr>target_value = js ''abc''\<rparr>" "[] :: jsstring list"]
  have c: "handleChange [Tel] None \<lparr>target_value = js ''abc''\<rparr> ([] :: jsstring list)
      = (\<lparr>target_value = js ''abc''\<rparr>, [])"
    by simp
  from a b c show ?thesis by blast
qed

section \<open>The mode in the change handler\<close>

text \<open>
  C10. The change handler does the same in mode \<^verbatim>\<open>['sid']\<close> as in mode
  \<^verbatim>\<open>['tel', 'sid']\<close>: the same event value and the same call of the callback, for every
  input and callback. In general two modes that agree on being exactly \<^verbatim>\<open>['tel']\<close>
  give the same handler.
\<close>

theorem handleChange_mode_only_through_onlyTel:
  "handleChange [Sid] onChange e h = handleChange [Tel, Sid] onChange e h
   \<and> ((inputTypes = [Tel]) = (inputTypes' = [Tel]) \<longrightarrow>
        handleChange inputTypes onChange e h = handleChange inputTypes' onChange e h)"
  by (cases onChange) (simp_all add: handleChange_def onlyTel_iff Let_def)

theorem handleChange_mode_only_through_onlyTel_witness:
  "([Sid, Tel] = [Tel]) = ([Sid] = [Tel])
   \<and> handleChange [Sid, Tel] (Some (\<lambda>e log. target_value e # log))
        \<lparr>target_value = js ''MG 12''\<rparr> []
      = handleChange [Sid] (Some (\<lambda>e log. target_value e # log))
        \<lparr>target_value = js ''MG 12''\<rparr> []
   \<and> handleChange [Sid] (Some (\<lambda>e log. target_value e # log))
        \<lparr>target_value = js ''MG 12''\<rparr> []
      = (\<lparr>target_value = js ''MG12''\<rparr>, [js ''MG12''])"
proof -
  have a: "([Sid, Tel] = [Tel]) = ([Sid] = [Tel])" by simp
  from a handleChange_mode_only_through_onlyTel
    [of "Some (\<lambda>e log. target_value e # log)" "\<lparr>target_value = js ''MG 12''\<rparr>" "[]"
        "[Sid, Tel]" "[Sid]"]
  have b: "handleChange [Sid, Tel] (Some (\<lambda>e log. target_value e # log))
        \<lparr>target_value = js ''MG 12''\<rparr> []
      = handleChange [Sid] (Some (\<lambda>e log. target_value e # log))
        \<lparr>target_value = js ''MG 12''\<rparr> []"
    by blast
  have c: "handleChange [Sid] (Some (\<lambda>e log. target_value e # log))
        \<lparr>target_value = js ''MG 12''\<rparr> []
      = (\<lparr>target_value = js ''MG12''\<rparr>, [js ''MG12''])"
    by (simp add: handleChange_def Let_def onlyTel_def reLikeTel_test_def trimLeft_def
        is_space_def is_digit_def is_alnum_def js_def)
  from a b c show ?thesis by blast
qed

section \<open>Debounce\<close>

lemma timeout_ms_small: "delay < 2 ^ 31 \<Longrightarrow> timeout_ms delay = delay"
  by (simp add: timeout_ms_def)

text \<open>A delay of \<open>2^31\<close> milliseconds is no delay.\<close>

lemma timeout_ms_wraps: "timeout_ms (2 ^ 31) = 0"
  by (simp add: timeout_ms_def)

lemma run_append: "run delay (es @ es') s = run delay es' (run delay es s)"
  by (induction es arbitrary: s) auto

lemma timer_inv_initial: "timer_inv initial"
  by (simp add: timer_inv_def initial_def)

lemma timers_run_cleanup: "timer_inv s \<Longrightarrow> timers (run_cleanup s) = []"
  by (cases "timers s") (auto simp: timer_inv_def run_cleanup_def clearTimeout_def split: option.splits)

lemma render_changed:
  "timer_inv s \<Longrightarrow> \<not> unmounted s \<Longrightarrow> deps s \<noteq> Some v \<Longrightarrow>
   render delay v s = s\<lparr>timers := [(next_id s, now s + timeout_ms delay, v)],
                        next_id := Suc (next_id s),
                        cleanup := Some (next_id s), deps := Some v\<rparr>"
  using timers_run_cleanup [of s]
  by (auto simp: render_def effect_def setTimeout_def run_cleanup_def clearTimeout_def
      split: option.splits)

lemma timer_inv_render: "timer_inv s \<Longrightarrow> timer_inv (render delay v s)"
proof (cases "unmounted s \<or> deps s = Some v")
  case True
  assume "timer_inv s"
  with True show ?thesis by (auto simp: render_def)
next
  case False
  assume "timer_inv s"
  with False show ?thesis
    by (simp add: render_changed) (simp add: timer_inv_def)
qed

lemma timer_inv_unmount: "timer_inv s \<Longrightarrow> timer_inv (unmount s)"
  using timers_run_cleanup [of s]
  by (auto simp: unmount_def timer_inv_def run_cleanup_def clearTimeout_def split: option.splits)

lemma timer_inv_fire: "timer_inv s \<Longrightarrow> timer_inv (fire t s)"
  by (cases "timers s")
     (auto simp: fire_def timer_inv_def clearTimeout_def split: option.splits if_splits)

lemma timer_inv_advance: "timer_inv s \<Longrightarrow> timer_inv (advance n s)"
  by (simp add: advance_def timer_inv_def)

lemma timer_inv_step: "timer_inv s \<Longrightarrow> timer_inv (step delay a s)"
  by (cases a) (simp_all add: timer_inv_render timer_inv_unmount timer_inv_fire timer_inv_advance)

lemma timer_inv_run: "timer_inv s \<Longrightarrow> timer_inv (run delay es s)"
  by (induction es arbitrary: s) (simp_all add: timer_inv_step)

lemma fire_not_due:
  "\<forall>(i, due, v) \<in> set (timers w). now w < due \<Longrightarrow> fire t w = w"
  by (auto simp: fire_def split: option.splits dest!: find_Some_iff[THEN iffD1])
     (metis case_prodD not_le nth_mem)

lemma quiet_window:
  "quiet es \<Longrightarrow> \<forall>(i, due, v) \<in> set (timers w). now w + elapsed es < due \<Longrightarrow>
   run delay es w = w\<lparr>now := now w + elapsed es\<rparr>"
proof (induction es arbitrary: w rule: quiet.induct)
  case 1
  then show ?case by simp
next
  case (2 n as)
  have "run delay as (advance n w) = (advance n w)\<lparr>now := now (advance n w) + elapsed as\<rparr>"
    using 2 by (intro "2.IH") (auto simp: advance_def add.assoc)
  then show ?case by (simp add: advance_def add.assoc)
next
  case (3 t as)
  have "\<forall>(i, due, v) \<in> set (timers w). now w < due"
    using 3(3) by auto
  then have "fire t w = w" by (rule fire_not_due)
  with 3 show ?case by simp
qed simp_all

lemma timers_clearTimeout: "set (timers (clearTimeout t w)) \<subseteq> set (timers w)"
  by (auto simp: clearTimeout_def)

lemma timers_run_cleanup_subset: "set (timers (run_cleanup w)) \<subseteq> set (timers w)"
  using timers_clearTimeout by (auto simp: run_cleanup_def split: option.splits)

lemma timers_render:
  "set (timers (render delay v w))
     \<subseteq> insert (next_id w, now w + timeout_ms delay, v) (set (timers w))"
  using timers_run_cleanup_subset [of w]
  by (auto simp: render_def effect_def setTimeout_def run_cleanup_def clearTimeout_def
      split: option.splits)

lemma timers_step_other:
  "\<not> is_Render a \<Longrightarrow> set (timers (step delay a w)) \<subseteq> set (timers w)"
  using timers_run_cleanup_subset [of w] timers_clearTimeout [of _ w]
  by (cases a)
     (auto simp: unmount_def advance_def fire_def split: option.splits)

lemma debounced_render: "debouncedValue (render delay v w) = debouncedValue w"
  by (auto simp: render_def effect_def setTimeout_def run_cleanup_def clearTimeout_def
      split: option.splits)

lemma debounced_unmount: "debouncedValue (unmount w) = debouncedValue w"
  by (auto simp: unmount_def run_cleanup_def clearTimeout_def split: option.splits)

lemma find_Some_mem: "find P xs = Some x \<Longrightarrow> x \<in> set xs \<and> P x"
  by (induction xs) (auto split: if_splits)

lemma debounced_fire:
  "debouncedValue (fire t w) = debouncedValue w
   \<or> (\<exists>due. (t, due, debouncedValue (fire t w)) \<in> set (timers w) \<and> due \<le> now w)"
proof (cases "find (\<lambda>(i, due, v). i = t) (timers w)")
  case None
  then show ?thesis by (simp add: fire_def)
next
  case (Some x)
  obtain i due v where x: "x = (i, due, v)" by (cases x)
  from Some have "x \<in> set (timers w)" "i = t"
    using find_Some_mem [of "\<lambda>(i, due, v). i = t" "timers w" x] by (auto simp: x)
  with Some x show ?thesis
    by (auto simp: fire_def clearTimeout_def)
qed

lemma debounced_step_other:
  "\<not> is_Render a \<Longrightarrow>
   debouncedValue (step delay a w) = debouncedValue w
   \<or> (\<exists>i due. (i, due, debouncedValue (step delay a w)) \<in> set (timers w))"
  using debounced_fire [of _ w]
  by (cases a) (auto simp: debounced_unmount advance_def)

lemma first_never_observed:
  "Render v1 \<notin> set es \<Longrightarrow> \<forall>(i, due, v) \<in> set (timers w). v \<noteq> v1 \<Longrightarrow>
   debouncedValue (run delay es w) = v1 \<Longrightarrow> debouncedValue w = v1"
proof (induction es arbitrary: w)
  case Nil
  then show ?case by simp
next
  case (Cons a es)
  have t: "\<forall>(i, due, v) \<in> set (timers (step delay a w)). v \<noteq> v1"
  proof (cases a)
    case (Render v)
    with Cons.prems(1) have "v \<noteq> v1" by auto
    with Render Cons.prems(2) timers_render [of delay v w] show ?thesis by auto
  next
    case Unmount
    with Cons.prems(2) timers_step_other [of a delay w] show ?thesis by auto
  next
    case (Advance n)
    with Cons.prems(2) timers_step_other [of a delay w] show ?thesis by auto
  next
    case (Fire k)
    with Cons.prems(2) timers_step_other [of a delay w] show ?thesis by auto
  qed
  from Cons.prems have "debouncedValue (run delay es (step delay a w)) = v1" by simp
  with Cons.IH [OF _ t] Cons.prems(1) have d: "debouncedValue (step delay a w) = v1" by simp
  show ?case
  proof (cases "is_Render a")
    case True
    then obtain v where "a = Render v" by (cases a) auto
    with d show ?thesis by (simp add: debounced_render)
  next
    case False
    from debounced_step_other [OF False, of delay w] d Cons.prems(2) show ?thesis by auto
  qed
qed

lemma only_second:
  "\<not> list_ex is_Render es \<Longrightarrow> \<forall>(i, due, v) \<in> set (timers w). v = v2 \<Longrightarrow>
   debouncedValue (run delay es w) \<in> {debouncedValue w, v2}"
proof (induction es arbitrary: w)
  case Nil
  then show ?case by simp
next
  case (Cons a es)
  then have a: "\<not> is_Render a" and es: "\<not> list_ex is_Render es" by simp_all
  from timers_step_other [OF a, of delay w] Cons.prems(2)
  have t: "\<forall>(i, due, v) \<in> set (timers (step delay a w)). v = v2" by auto
  from debounced_step_other [OF a, of delay w] Cons.prems(2)
  have "debouncedValue (step delay a w) \<in> {debouncedValue w, v2}" by auto
  with Cons.IH [OF es t] show ?case by auto
qed

lemma after_unmount:
  "unmounted w \<Longrightarrow> timers w = [] \<Longrightarrow> debouncedValue (run delay es w) = debouncedValue w"
proof (induction es arbitrary: w)
  case Nil
  then show ?case by simp
next
  case (Cons a es)
  have "unmounted (step delay a w) \<and> timers (step delay a w) = []
        \<and> debouncedValue (step delay a w) = debouncedValue w"
    using Cons.prems
    by (cases a)
       (auto simp: render_def unmount_def advance_def fire_def run_cleanup_def clearTimeout_def
          split: option.splits)
  with Cons.IH [of "step delay a w"] show ?case by simp
qed

lemma fire_due:
  "timers w = [(t, due, v)] \<Longrightarrow> due \<le> now w \<Longrightarrow> debouncedValue (fire t w) = v"
  by (simp add: fire_def clearTimeout_def)

text \<open>
  C8. With a delay below \<open>2^31\<close> milliseconds (the range in which the timeout of
  \<^verbatim>\<open>setTimeout\<close> is the delay), in every state \<open>s\<close> the component reaches from
  its initial state:
  \<^item> a change of the value (a render with a value other than the last one) cancels the
    pending update and leaves exactly one, due after the delay, which sets
    \<^verbatim>\<open>debouncedValue\<close> to the new value when it runs;
  \<^item> when the value changes to \<open>v1\<close> and, less than the delay later, to \<open>v2\<close>:
    \<^verbatim>\<open>debouncedValue\<close> does not change in between; after the second change the only
    pending update is the one for \<open>v2\<close>; whatever happens later, as long as the host
    does not render \<open>v1\<close> again, \<^verbatim>\<open>debouncedValue\<close> is \<open>v1\<close> only if it was
    \<open>v1\<close> before the first change; as long as the value does not change again,
    \<^verbatim>\<open>debouncedValue\<close> is its old value or \<open>v2\<close>; and it is \<open>v2\<close> once the
    delay has passed and the timer has run;
  \<^item> unmounting leaves no pending update, and \<^verbatim>\<open>debouncedValue\<close> never changes
    afterwards.
\<close>

theorem debounce_supersession:
  assumes "s = run delay es initial"
    and "delay < 2 ^ 31"
  shows
    "(\<not> unmounted s \<and> deps s \<noteq> Some v \<longrightarrow>
        timers (render delay v s) = [(next_id s, now s + delay, v)]
        \<and> debouncedValue (run delay [Render v, Advance delay, Fire (next_id s)] s) = v)
     \<and> (\<not> unmounted s \<and> deps s \<noteq> Some v1 \<and> v2 \<noteq> v1 \<and> quiet es1 \<and> elapsed es1 < delay \<longrightarrow>
          debouncedValue (run delay (Render v1 # es1) s) = debouncedValue s
          \<and> timers (run delay (Render v1 # es1 @ [Render v2]) s)
              = [(Suc (next_id s), now s + elapsed es1 + delay, v2)]
          \<and> (\<forall>es2. Render v1 \<notin> set es2 \<longrightarrow>
                debouncedValue (run delay (Render v1 # es1 @ Render v2 # es2) s) = v1 \<longrightarrow>
                debouncedValue s = v1)
          \<and> (\<forall>es2. \<not> list_ex is_Render es2 \<longrightarrow>
                debouncedValue (run delay (Render v1 # es1 @ Render v2 # es2) s)
                  \<in> {debouncedValue s, v2})
          \<and> debouncedValue
               (run delay (Render v1 # es1 @ [Render v2, Advance delay, Fire (Suc (next_id s))]) s)
              = v2)
     \<and> timers (unmount s) = []
     \<and> (\<forall>es'. debouncedValue (run delay (Unmount # es') s) = debouncedValue s)"
proof -
  have tinv: "timer_inv s"
    unfolding assms(1) by (rule timer_inv_run [OF timer_inv_initial])
  have td: "timeout_ms delay = delay"
    using assms(2) by (rule timeout_ms_small)
  have A: "timers (render delay v s) = [(next_id s, now s + delay, v)]
        \<and> debouncedValue (run delay [Render v, Advance delay, Fire (next_id s)] s) = v"
    if "\<not> unmounted s" "deps s \<noteq> Some v" for v
    using that
    by (simp add: render_changed [OF tinv] td advance_def
        fire_due [where due = "now s + delay"])
  have C1: "timers (unmount s) = []"
    using timers_run_cleanup [OF tinv]
    by (simp add: unmount_def)
  have C2: "debouncedValue (run delay (Unmount # es') s) = debouncedValue s" for es'
    using after_unmount [of "unmount s" delay es'] C1
    by (simp add: unmount_def debounced_unmount [unfolded unmount_def])
  have B: "debouncedValue (run delay (Render v1 # es1) s) = debouncedValue s
          \<and> timers (run delay (Render v1 # es1 @ [Render v2]) s)
              = [(Suc (next_id s), now s + elapsed es1 + delay, v2)]
          \<and> (\<forall>es2. Render v1 \<notin> set es2 \<longrightarrow>
                debouncedValue (run delay (Render v1 # es1 @ Render v2 # es2) s) = v1 \<longrightarrow>
                debouncedValue s = v1)
          \<and> (\<forall>es2. \<not> list_ex is_Render es2 \<longrightarrow>
                debouncedValue (run delay (Render v1 # es1 @ Render v2 # es2) s)
                  \<in> {debouncedValue s, v2})
          \<and> debouncedValue
               (run delay (Render v1 # es1 @ [Render v2, Advance delay, Fire (Suc (next_id s))]) s)
              = v2"
    if h: "\<not> unmounted s" "deps s \<noteq> Some v1" "v2 \<noteq> v1" "quiet es1" "elapsed es1 < delay"
  proof -
    define s1 where "s1 = render delay v1 s"
    have s1: "s1 = s\<lparr>timers := [(next_id s, now s + delay, v1)], next_id := Suc (next_id s),
                        cleanup := Some (next_id s), deps := Some v1\<rparr>"
      unfolding s1_def using h by (simp add: render_changed [OF tinv] td)
    define w where "w = run delay es1 s1"
    have w: "w = s1\<lparr>now := now s1 + elapsed es1\<rparr>"
      unfolding w_def using h by (intro quiet_window) (auto simp: s1)
    have invw: "timer_inv w"
      unfolding w_def s1_def by (intro timer_inv_run timer_inv_render tinv)
    define s2 where "s2 = render delay v2 w"
    have s2: "s2 = w\<lparr>timers := [(next_id w, now w + delay, v2)], next_id := Suc (next_id w),
                        cleanup := Some (next_id w), deps := Some v2\<rparr>"
    proof -
      have "\<not> unmounted w" and "deps w \<noteq> Some v2"
        using h by (auto simp: w s1)
      then show ?thesis
        unfolding s2_def by (simp add: render_changed [OF invw] td)
    qed
    have r1: "run delay (Render v1 # es1) s = w"
      by (simp add: w_def s1_def)
    have r2: "run delay (Render v1 # es1 @ es') s = run delay es' w" for es'
      by (simp add: run_append w_def s1_def)
    have r3: "run delay (Render v1 # es1 @ Render v2 # es') s = run delay es' s2" for es'
      using r2 [of "Render v2 # es'"] by (simp add: s2_def)
    have b1: "debouncedValue (run delay (Render v1 # es1) s) = debouncedValue s"
      unfolding r1 by (simp add: w s1)
    have b2: "timers (run delay (Render v1 # es1 @ [Render v2]) s)
              = [(Suc (next_id s), now s + elapsed es1 + delay, v2)]"
      unfolding r3 by (simp add: s2 w s1)
    have d2: "debouncedValue s2 = debouncedValue s"
      by (simp add: s2 w s1)
    have b3: "debouncedValue s = v1"
      if "Render v1 \<notin> set es2" "debouncedValue (run delay (Render v1 # es1 @ Render v2 # es2) s) = v1"
      for es2
      using first_never_observed [of v1 es2 s2 delay] that h(3) d2
      unfolding r3 by (simp add: s2)
    have b4: "debouncedValue (run delay (Render v1 # es1 @ Render v2 # es2) s)
                  \<in> {debouncedValue s, v2}"
      if "\<not> list_ex is_Render es2" for es2
      using only_second [of es2 s2 v2 delay] that d2
      unfolding r3 by (simp add: s2)
    have b5: "debouncedValue
               (run delay (Render v1 # es1 @ [Render v2, Advance delay, Fire (Suc (next_id s))]) s)
              = v2"
      unfolding r3
      by (simp add: fire_due [where due = "now s + elapsed es1 + delay"] advance_def s2 w s1)
    from b1 b2 b3 b4 b5 show ?thesis by blast
  qed
  from A B C1 C2 show ?thesis by blast
qed

theorem debounce_supersession_witness:
  "(300 :: nat) < 2 ^ 31
   \<and> debouncedValue (run 300 [Render (js ''+1''), Advance 100, Fire 1] initial) = []
   \<and> timers (run 300 [Render (js ''+1''), Advance 100, Fire 1, Render (js ''+12'')] initial)
       = [(2, 400, js ''+12'')]
   \<and> debouncedValue
        (run 300 [Render (js ''+1''), Advance 100, Fire 1, Render (js ''+12''),
                  Advance 300, Fire 2] initial) = js ''+12''
   \<and> timers (run 300 [Render (js ''+1''), Advance 100] initial) = [(1, 300, js ''+1'')]
   \<and> timers (run 300 [Render (js ''+1''), Advance 100, Unmount] initial) = []
   \<and> debouncedValue
        (run 300 [Render (js ''+1''), Advance 100, Unmount, Advance 300, Fire 1] initial) = []"
proof -
  have i: "initial = run 300 [] initial"
    by simp
  have k: "(300 :: nat) < 2 ^ 31"
    by simp
  have h: "\<not> unmounted initial \<and> deps initial \<noteq> Some (js ''+1'') \<and> js ''+12'' \<noteq> js ''+1''
      \<and> quiet [Advance 100, Fire 1] \<and> elapsed [Advance 100, Fire 1] < 300"
    by (simp add: initial_def js_def)
  note t = debounce_supersession [OF i k, where ?v1.0 = "js ''+1''" and ?v2.0 = "js ''+12''"
      and ?es1.0 = "[Advance 100, Fire 1]"]
  from t h
  have a: "debouncedValue (run 300 (Render (js ''+1'') # [Advance 100, Fire 1]) initial)
      = debouncedValue initial"
    by blast
  from t h
  have b: "timers (run 300 (Render (js ''+1'') # [Advance 100, Fire 1] @ [Render (js ''+12'')])
             initial)
      = [(Suc (next_id initial), now initial + elapsed [Advance 100, Fire 1] + 300, js ''+12'')]"
    by blast
  from t h
  have c: "debouncedValue
        (run 300 (Render (js ''+1'') # [Advance 100, Fire 1]
                    @ [Render (js ''+12''), Advance 300, Fire (Suc (next_id initial))]) initial)
      = js ''+12''"
    by blast
  have n: "next_id initial = 1" "now initial = 0" "debouncedValue initial = []"
    by (simp_all add: initial_def)
  define p where "p = run 300 [Render (js ''+1''), Advance 100] initial"
  have p: "p = \<lparr>now = 100, timers = [(1, 300, js ''+1'')], next_id = 2, debouncedValue = [],
                 deps = Some (js ''+1''), cleanup = Some 1, unmounted = False\<rparr>"
    by (simp add: p_def initial_def render_def run_cleanup_def effect_def setTimeout_def
        timeout_ms_def advance_def)
  note u = debounce_supersession [OF p_def k]
  from u have d: "timers (unmount p) = []"
    by blast
  from u have e: "debouncedValue (run 300 (Unmount # [Advance 300, Fire 1]) p) = debouncedValue p"
    by blast
  have r: "run 300 ([Render (js ''+1''), Advance 100] @ es') initial = run 300 es' p" for es'
    unfolding p_def by (rule run_append)
  have f: "timers (run 300 [Render (js ''+1''), Advance 100] initial) = [(1, 300, js ''+1'')]"
    using p by (simp add: p_def)
  have g: "timers (run 300 [Render (js ''+1''), Advance 100, Unmount] initial) = []"
    using r [of "[Unmount]"] d by simp
  have j: "debouncedValue
        (run 300 [Render (js ''+1''), Advance 100, Unmount, Advance 300, Fire 1] initial) = []"
    using r [of "[Unmount, Advance 300, Fire 1]"] e p by simp
  from a b c show ?thesis
    unfolding n using k f g j by (simp add: numeral_2_eq_2)
qed

end
